theory Spec2Isabelle
  imports Complex_Main "HOL-Library.Sublist"
begin

section \<open>Data model of \<open>src/main.py\<close>\<close>

text \<open>
  The program is a Flet application: a \<open>DisciplineApp\<close> object (timer fields and an SQLite
  connection) and a set of UI controls that the handlers nested in \<open>main\<close> read and write.
  Every handler is translated as a function on one record holding both.

  Python \<open>str\<close> values are represented by their UTF-8 bytes. The handlers only concatenate
  strings, compare them and test them for emptiness, and all three commute with the
  encoding. The Arabic literals that take part in such operations are written out as
  bytes; the fixed labels that are only displayed are an enumeration of which label is shown.
\<close>

datatype py_error = ValueError | ZeroDivisionError

text \<open>A \<open>datetime.datetime.now()\<close> reading, as a count of microseconds.\<close>

type_synonym datetime = int

subsection \<open>The table \<open>hourly_logs\<close>\<close>

record log_entry =
  log_id :: int
  timestamp :: datetime
  activity :: string
  productivity_score :: int

text \<open>
  The database file: the rows of \<open>hourly_logs\<close> in rowid order, and the counter SQLite
  keeps in \<open>sqlite_sequence\<close> for an \<open>AUTOINCREMENT\<close> key (the largest rowid the table
  ever held).
\<close>

record database =
  hourly_logs :: "log_entry list"
  sqlite_sequence :: int

text \<open>\<open>CREATE TABLE IF NOT EXISTS\<close>: a file without the table gets an empty one.\<close>

definition create_tables :: "database option \<Rightarrow> database" where
  "create_tables file =
     (case file of
        None \<Rightarrow> \<lparr>hourly_logs = [], sqlite_sequence = 0\<rparr>
      | Some db \<Rightarrow> db)"

text \<open>
  The rowid of an \<open>INTEGER PRIMARY KEY AUTOINCREMENT\<close> column: one more than the largest
  rowid in the table and the largest ever used.
\<close>

definition next_rowid :: "database \<Rightarrow> int" where
  "next_rowid db = fold max (map log_id (hourly_logs db)) (sqlite_sequence db) + 1"

text \<open>
  The \<open>INSERT\<close> of \<open>log_activity\<close>, with the clock reading it passes as a parameter.
  Storage faults are outside the model.
\<close>

definition insert_log :: "datetime \<Rightarrow> string \<Rightarrow> int \<Rightarrow> database \<Rightarrow> database" where
  "insert_log now activity_text score db =
     (let i = next_rowid db in
      db\<lparr>hourly_logs := hourly_logs db @
            [\<lparr>log_id = i, timestamp = now, activity = activity_text,
              productivity_score = score\<rparr>],
         sqlite_sequence := i\<rparr>)"

subsection \<open>Controls and application state\<close>

text \<open>
  A row of \<open>tasks_column.controls\<close>: the \<open>ft.Container\<close> built by \<open>add_task\<close>, identified
  by the order of its allocation, with the text and the checkbox it shows.
\<close>

record task =
  control :: nat
  task_text :: string
  checkbox :: bool

datatype status_label = Status_ready | Status_working | Status_paused

datatype button_label = Label_start | Label_stop

datatype button_style = Green_700 | Red_900

datatype snack = Snack_bell | Snack_well_done | Snack_refocus

record app =
  is_working :: bool
  start_time :: "datetime option"
  worked_seconds :: int
  daily_target :: int
  current_task_focus :: string
  conn :: database
  target_dropdown_value :: string
  target_dropdown_disabled :: bool
  timer_text :: string
  current_focus_label :: string
  status_text :: status_label
  progress_bar :: rat
  task_input :: string
  tasks_column :: "task list"
  next_control :: nat
  quote_text :: string
  note_input :: string
  btn_label_control :: button_label
  start_btn_style :: button_style
  page_dialog :: bool
  log_dialog_open :: bool
  snack_bar :: "snack option"
  quotes :: "string list"

text \<open>
  \<open>page_dialog\<close> says whether \<open>page.dialog\<close> is \<open>log_dialog\<close> (it is \<open>None\<close> before);
  \<open>next_control\<close> is the allocation count that gives each new container its identity;
  \<open>quotes\<close> is the list imported from the module \<open>quotes\<close>, or the fallback list, fixed at
  start. \<open>progress_bar\<close> holds the exact quotient: the rounding of Python's floats is
  outside the model.

  The value of a text field is a string; \<open>None\<close> and the empty string, which the
  handlers only test for truth, are both the empty string here.

  A handler that raises leaves the state as it was at the \<open>raise\<close>: the result is the
  exception and that state.
\<close>

type_synonym 'a raises = "(py_error \<times> app) + 'a"

definition DEFAULT_TARGET_HOURS :: int where
  "DEFAULT_TARGET_HOURS = 10"

definition CHECK_IN_INTERVAL :: int where
  "CHECK_IN_INTERVAL = 15 * 60"

definition target_options :: "string list" where
  "target_options = [''3'', ''5'', ''8'', ''10'', ''12'']"

text \<open>The label prefix of \<open>current_focus_label\<close> (a target emoji and an Arabic caption).\<close>

definition focus_prefix :: string where
  "focus_prefix =
     [CHR 0xF0, CHR 0x9F, CHR 0x8E, CHR 0xAF, CHR 0x20, CHR 0xD8, CHR 0xA7, CHR 0xD9,
      CHR 0x84, CHR 0xD8, CHR 0xAA, CHR 0xD8, CHR 0xB1, CHR 0xD9, CHR 0x83, CHR 0xD9,
      CHR 0x8A, CHR 0xD8, CHR 0xB2, CHR 0x20, CHR 0xD8, CHR 0xA7, CHR 0xD9, CHR 0x84,
      CHR 0xD8, CHR 0xAD, CHR 0xD8, CHR 0xA7, CHR 0xD9, CHR 0x84, CHR 0xD9, CHR 0x8A,
      CHR 0x3A, CHR 0x20]"

text \<open>The activity texts of the two answers, and the separator before a note.\<close>

definition yes_text :: string where
  "yes_text =
     [CHR 0xD8, CHR 0xA5, CHR 0xD8, CHR 0xAC, CHR 0xD8, CHR 0xA7, CHR 0xD8, CHR 0xA8,
      CHR 0xD8, CHR 0xA9, CHR 0x3A, CHR 0x20, CHR 0xD9, CHR 0x86, CHR 0xD8, CHR 0xB9,
      CHR 0xD9, CHR 0x85]"

definition no_text :: string where
  "no_text =
     [CHR 0xD8, CHR 0xA5, CHR 0xD8, CHR 0xAC, CHR 0xD8, CHR 0xA7, CHR 0xD8, CHR 0xA8,
      CHR 0xD8, CHR 0xA9, CHR 0x3A, CHR 0x20, CHR 0xD9, CHR 0x84, CHR 0xD8, CHR 0xA7]"

definition note_prefix :: string where
  "note_prefix =
     [CHR 0x20, CHR 0x2D, CHR 0x20, CHR 0xD9, CHR 0x85, CHR 0xD9, CHR 0x84, CHR 0xD8,
      CHR 0xA7, CHR 0xD8, CHR 0xAD, CHR 0xD8, CHR 0xB8, CHR 0xD8, CHR 0xA9, CHR 0x3A,
      CHR 0x20]"

definition initial_quote :: string where
  "initial_quote =
     [CHR 0xD8, CHR 0xAA, CHR 0xD9, CHR 0x88, CHR 0xD9, CHR 0x83, CHR 0xD9, CHR 0x84,
      CHR 0x20, CHR 0xD8, CHR 0xB9, CHR 0xD9, CHR 0x84, CHR 0xD9, CHR 0x89, CHR 0x20,
      CHR 0xD8, CHR 0xA7, CHR 0xD9, CHR 0x84, CHR 0xD9, CHR 0x84, CHR 0xD9, CHR 0x87]"

section \<open>Python built-ins used by the handlers\<close>

text \<open>Decimal digits of a natural number, as \<open>str\<close> prints them.\<close>

definition digit_char :: "nat \<Rightarrow> char" where
  "digit_char d = ''0123456789'' ! d"

fun decimal :: "nat \<Rightarrow> string" where
  "decimal n = (if n < 10 then [digit_char n] else decimal (n div 10) @ [digit_char (n mod 10)])"

declare decimal.simps [simp del]

text \<open>
  The format field \<open>{:02d}\<close>: the sign (only \<open>-\<close> is printed), then zeros up to a total
  width of two, then the digits.
\<close>

definition format_02d :: "int \<Rightarrow> string" where
  "format_02d n =
     (let sign = (if n < 0 then ''-'' else []);
          ds = decimal (nat \<bar>n\<bar>)
      in sign @ replicate (2 - (length sign + length ds)) CHR ''0'' @ ds)"

text \<open>\<open>divmod\<close> on integers with a non-zero divisor: floor division and its remainder.\<close>

definition py_divmod :: "int \<Rightarrow> int \<Rightarrow> int \<times> int" where
  "py_divmod a b = (a div b, a mod b)"

text \<open>
  \<open>int(s)\<close> on a string of ASCII digits. Python also accepts a sign, surrounding blanks
  and underscores; the dropdown never holds such a value, and the model reports
  everything else as the \<open>ValueError\<close> of a malformed literal.
\<close>

definition digit_value :: "char \<Rightarrow> nat option" where
  "digit_value c =
     (let k = (of_char c :: nat) in if 48 \<le> k \<and> k \<le> 57 then Some (k - 48) else None)"

fun parse_digits :: "nat \<Rightarrow> string \<Rightarrow> nat option" where
  "parse_digits acc [] = Some acc"
| "parse_digits acc (c # cs) =
     (case digit_value c of
        None \<Rightarrow> None
      | Some d \<Rightarrow> parse_digits (10 * acc + d) cs)"

definition py_int :: "string \<Rightarrow> int option" where
  "py_int v = (if v = [] then None else map_option int (parse_digits 0 v))"

text \<open>\<open>list.remove\<close> on the task rows: drops the first row that is the given container.\<close>

fun list_remove :: "nat \<Rightarrow> task list \<Rightarrow> task list option" where
  "list_remove c [] = None"
| "list_remove c (t # ts) =
     (if control t = c then Some ts else map_option ((#) t) (list_remove c ts))"

section \<open>The handlers\<close>

subsection \<open>\<open>DisciplineApp.log_activity\<close>\<close>

definition log_activity :: "datetime \<Rightarrow> string \<Rightarrow> int \<Rightarrow> app \<Rightarrow> app" where
  "log_activity now activity_text score s =
     s\<lparr>conn := insert_log now activity_text score (conn s)\<rparr>"

subsection \<open>Goal selector\<close>

definition on_target_change :: "app \<Rightarrow> app raises" where
  "on_target_change s =
     (case py_int (target_dropdown_value s) of
        None \<Rightarrow> Inl (ValueError, s)
      | Some h \<Rightarrow> Inr (s\<lparr>daily_target := h\<rparr>))"

text \<open>
  The handler checks neither \<open>is_working\<close> nor the value it reads. What restricts it
  is the dropdown control itself: it is built with the five options (lines 80-86), and
  \<open>start_work\<close> sets its \<open>disabled\<close> attribute.
\<close>

subsection \<open>Tasks and focus\<close>

definition set_focus_task :: "string \<Rightarrow> app \<Rightarrow> app" where
  "set_focus_task task_name s =
     s\<lparr>current_task_focus := task_name,
       current_focus_label := focus_prefix @ task_name\<rparr>"

text \<open>The first parameter (the text of the row) is not used by the source either.\<close>

definition delete_task :: "string \<Rightarrow> nat \<Rightarrow> app \<Rightarrow> app raises" where
  "delete_task task_row task_control s =
     (case list_remove task_control (tasks_column s) of
        None \<Rightarrow> Inl (ValueError, s)
      | Some ts \<Rightarrow> Inr (s\<lparr>tasks_column := ts\<rparr>))"

definition add_task :: "app \<Rightarrow> app" where
  "add_task s =
     (if task_input s = [] then s
      else
        let task_text = task_input s;
            task_row_control = next_control s
        in s\<lparr>tasks_column := tasks_column s @
                 [\<lparr>control = task_row_control, task_text = task_text, checkbox = False\<rparr>],
             task_input := [],
             next_control := Suc (next_control s)\<rparr>)"

subsection \<open>Quotes and the check-in dialog\<close>

text \<open>\<open>r\<close> is the draw of \<open>random.choice\<close>.\<close>

definition update_quote :: "nat \<Rightarrow> app \<Rightarrow> app" where
  "update_quote r s =
     (if quotes s = [] then s
      else s\<lparr>quote_text := CHR 0x22 # (quotes s ! (r mod length (quotes s))) @ [CHR 0x22]\<rparr>)"

text \<open>\<open>page.close_dialog()\<close>: closes the dialog of the page when there is one.\<close>

definition close_dialog :: "app \<Rightarrow> app" where
  "close_dialog s = (if page_dialog s then s\<lparr>log_dialog_open := False\<rparr> else s)"

definition handle_yes :: "datetime \<Rightarrow> app \<Rightarrow> app" where
  "handle_yes now s =
     (let note = (if note_input s \<noteq> [] then note_prefix @ note_input s else []);
          s1 = log_activity now (yes_text @ note) 1 s;
          s2 = s1\<lparr>note_input := []\<rparr>;
          s3 = close_dialog s2
      in s3\<lparr>snack_bar := Some Snack_well_done\<rparr>)"

definition handle_no :: "datetime \<Rightarrow> app \<Rightarrow> app" where
  "handle_no now s =
     (let note = (if note_input s \<noteq> [] then note_prefix @ note_input s else []);
          s1 = log_activity now (no_text @ note) 0 s;
          s2 = s1\<lparr>note_input := []\<rparr>;
          s3 = close_dialog s2
      in s3\<lparr>snack_bar := Some Snack_refocus\<rparr>)"

subsection \<open>The timer\<close>

text \<open>
  The body of the \<open>while\<close> loop of \<open>run_timer\<close>, up to its \<open>await asyncio.sleep(1)\<close>. The
  second component of the result says whether the branch that opens the dialog was taken.
  The division raises when the target is zero, after the counter and the display have
  been written.
\<close>

definition run_timer_body :: "app \<Rightarrow> (app \<times> bool) raises" where
  "run_timer_body s =
     (let s1 = s\<lparr>worked_seconds := worked_seconds s + 1\<rparr>;
          (mins0, secs) = py_divmod (worked_seconds s1) 60;
          (hours, mins) = py_divmod mins0 60;
          s2 = s1\<lparr>timer_text :=
                   format_02d hours @ '':'' @ format_02d mins @ '':'' @ format_02d secs\<rparr>
      in if daily_target s2 * 3600 = 0 then Inl (ZeroDivisionError, s2)
         else
           let progress = of_int (worked_seconds s2) / of_int (daily_target s2 * 3600);
               s3 = s2\<lparr>progress_bar := min progress 1\<rparr>
           in if worked_seconds s3 mod CHECK_IN_INTERVAL = 0 \<and> worked_seconds s3 > 0
              then Inr (s3\<lparr>page_dialog := True, log_dialog_open := True,
                            snack_bar := Some Snack_bell\<rparr>, True)
              else Inr (s3, False))"

text \<open>
  One turn of the loop: the test of \<open>while app_logic.is_working\<close> and, when it holds, the
  body. When it fails the loop ends and nothing is written.
\<close>

definition run_timer_iter :: "app \<Rightarrow> (app \<times> bool) raises" where
  "run_timer_iter s = (if is_working s then run_timer_body s else Inr (s, False))"

text \<open>
  \<open>start_work\<close>, up to the point where the handler is first suspended; \<open>now\<close> is the
  clock reading and \<open>r\<close> the random draw. The idle branch ends with
  \<open>await run_timer()\<close>: the loop is entered in the same dispatch and its first turn runs
  before the \<open>asyncio.sleep\<close> that suspends the handler. The later turns, each resumed
  from that sleep, are events of their own. The second component of the result says
  whether the check-in dialog was opened; the working branch never opens it.
\<close>

definition start_work :: "datetime \<Rightarrow> nat \<Rightarrow> app \<Rightarrow> (app \<times> bool) raises" where
  "start_work now r s =
     (if \<not> is_working s then
        let s1 = s\<lparr>is_working := True, start_time := Some now\<rparr>;
            s2 = update_quote r s1;
            s3 = s2\<lparr>btn_label_control := Label_stop,
                   start_btn_style := Red_900,
                   status_text := Status_working,
                   target_dropdown_disabled := True\<rparr>
        in run_timer_iter s3
      else
        Inr (s\<lparr>is_working := False,
               btn_label_control := Label_start,
               start_btn_style := Green_700,
               status_text := Status_paused,
               target_dropdown_disabled := False\<rparr>, False))"

section \<open>Executions\<close>

text \<open>
  The state when \<open>main\<close> has built the page: \<open>DisciplineApp.__init__\<close>, the initial values
  of the controls, and the first \<open>update_quote()\<close>. The parameters are the list of quotes,
  the database file found on disk and the first random draw.
\<close>

definition initial :: "string list \<Rightarrow> database option \<Rightarrow> nat \<Rightarrow> app" where
  "initial qs file r =
     update_quote r
       \<lparr>is_working = False,
        start_time = None,
        worked_seconds = 0,
        daily_target = DEFAULT_TARGET_HOURS,
        current_task_focus = ''General Work'',
        conn = create_tables file,
        target_dropdown_value = ''10'',
        target_dropdown_disabled = False,
        timer_text = ''00:00:00'',
        current_focus_label = focus_prefix @ ''General Work'',
        status_text = Status_ready,
        progress_bar = 0,
        task_input = [],
        tasks_column = [],
        next_control = 0,
        quote_text = initial_quote,
        note_input = [],
        btn_label_control = Label_start,
        start_btn_style = Green_700,
        page_dialog = False,
        log_dialog_open = False,
        snack_bar = None,
        quotes = qs\<rparr>"

text \<open>
  What can happen to the running application: a click on a button, a choice in the
  dropdown (the control stores the chosen value and calls \<open>on_change\<close>), text typed into
  one of the two fields, and a turn of the timer loop resumed from its sleep.
\<close>

datatype event =
    Start_click datetime nat
  | Timer_turn
  | Target_change string
  | Focus_click string
  | Delete_click string nat
  | Task_typed string
  | Add_click
  | Note_typed string
  | Yes_click datetime
  | No_click datetime

text \<open>The state a handler leaves behind, whether it returned or raised.\<close>

definition final :: "app raises \<Rightarrow> app" where
  "final r = (case r of Inl (e, s) \<Rightarrow> s | Inr s \<Rightarrow> s)"

fun step :: "event \<Rightarrow> app \<Rightarrow> app" where
  "step (Start_click now r) s = final (map_sum id fst (start_work now r s))"
| "step Timer_turn s = final (map_sum id fst (run_timer_iter s))"
| "step (Target_change v) s = final (on_target_change (s\<lparr>target_dropdown_value := v\<rparr>))"
| "step (Focus_click name) s = set_focus_task name s"
| "step (Delete_click row c) s = final (delete_task row c s)"
| "step (Task_typed txt) s = s\<lparr>task_input := txt\<rparr>"
| "step Add_click s = add_task s"
| "step (Note_typed txt) s = s\<lparr>note_input := txt\<rparr>"
| "step (Yes_click now) s = handle_yes now s"
| "step (No_click now) s = handle_no now s"

text \<open>Whether the event opens the check-in dialog.\<close>

fun opens_dialog :: "event \<Rightarrow> app \<Rightarrow> bool" where
  "opens_dialog (Start_click now r) s =
     (case start_work now r s of Inl _ \<Rightarrow> False | Inr (_, b) \<Rightarrow> b)"
| "opens_dialog Timer_turn s = (case run_timer_iter s of Inl _ \<Rightarrow> False | Inr (_, b) \<Rightarrow> b)"
| "opens_dialog _ s = False"

text \<open>
  The dropdown lists five options and no other value can be chosen in it: an execution
  whose choices are all among the options is one the page can deliver.
\<close>

fun offered :: "event \<Rightarrow> bool" where
  "offered (Target_change v) = (v \<in> set target_options)"
| "offered _ = True"

fun run :: "event list \<Rightarrow> app \<Rightarrow> app" where
  "run [] s = s"
| "run (e # es) s = run es (step e s)"

text \<open>
  The values of \<open>worked_seconds\<close> at which the dialog was opened during an execution, in
  the order of the openings.
\<close>

fun check_ins :: "event list \<Rightarrow> app \<Rightarrow> int list" where
  "check_ins [] s = []"
| "check_ins (e # es) s =
     (if opens_dialog e s then worked_seconds (step e s) # check_ins es (step e s)
      else check_ins es (step e s))"

text \<open>
  The three states of the check-in protocol, read off the application state: idle when
  not working, awaiting an answer when working with the dialog open.
\<close>

datatype protocol_state = IDLE | WORKING | AWAITING_CHECKIN

definition protocol :: "app \<Rightarrow> protocol_state" where
  "protocol s =
     (if \<not> is_working s then IDLE
      else if page_dialog s \<and> log_dialog_open s then AWAITING_CHECKIN
      else WORKING)"

text \<open>
  Modelled from the spec: the ordered scan of the log store by \<open>id\<close>, which the spec asks
  of an implementation and which the source does not have (nothing reads the table).
\<close>

definition scan_by_id :: "database \<Rightarrow> log_entry list" where
  "scan_by_id db = sort_key log_id (hourly_logs db)"


text \<open>
  The state in which the idle branch of \<open>start_work\<close> enters the loop; it only serves to
  state what \<open>start_work\<close> returns.
\<close>

definition started :: "datetime \<Rightarrow> nat \<Rightarrow> app \<Rightarrow> app" where
  "started now r s =
     (update_quote r (s\<lparr>is_working := True, start_time := Some now\<rparr>))
       \<lparr>btn_label_control := Label_stop, start_btn_style := Red_900,
        status_text := Status_working, target_dropdown_disabled := True\<rparr>"

text \<open>
  The state after the first statements of the loop body (the counter incremented and the
  display rendered), with the two \<open>divmod\<close> calls written as one division each; it only
  serves to state what \<open>run_timer_body\<close> returns.
\<close>

definition ticked :: "app \<Rightarrow> app" where
  "ticked s =
     s\<lparr>worked_seconds := worked_seconds s + 1,
       timer_text := format_02d ((worked_seconds s + 1) div 3600) @ '':'' @
          format_02d ((worked_seconds s + 1) mod 3600 div 60) @ '':'' @
          format_02d ((worked_seconds s + 1) mod 60)\<rparr>"

text \<open>
  The state the loop body leaves behind, whether it returned or raised, and whether it
  opened the dialog.
\<close>

definition after_body :: "app \<Rightarrow> app" where
  "after_body s = final (map_sum id fst (run_timer_body s))"

definition body_opens :: "app \<Rightarrow> bool" where
  "body_opens s = (case run_timer_body s of Inl _ \<Rightarrow> False | Inr (_, b) \<Rightarrow> b)"

text \<open>
  Whether the event runs the loop body: a turn of the loop in a working state, and the
  start click in an idle state, which enters the loop.
\<close>

fun runs_body :: "event \<Rightarrow> app \<Rightarrow> bool" where
  "runs_body (Start_click now r) s = (\<not> is_working s)"
| "runs_body Timer_turn s = is_working s"
| "runs_body _ s = False"



section \<open>What the handlers return\<close>

lemma update_quote_frame:
  "is_working (update_quote r s) = is_working s"
  "worked_seconds (update_quote r s) = worked_seconds s"
  "conn (update_quote r s) = conn s"
  "daily_target (update_quote r s) = daily_target s"
  "target_dropdown_disabled (update_quote r s) = target_dropdown_disabled s"
  "current_focus_label (update_quote r s) = current_focus_label s"
  "current_task_focus (update_quote r s) = current_task_focus s"
  "page_dialog (update_quote r s) = page_dialog s"
  "log_dialog_open (update_quote r s) = log_dialog_open s"
  "snack_bar (update_quote r s) = snack_bar s"
  by (simp_all add: update_quote_def)

lemma started_frame:
  "is_working (started now r s)"
  "target_dropdown_disabled (started now r s)"
  "worked_seconds (started now r s) = worked_seconds s"
  "conn (started now r s) = conn s"
  "daily_target (started now r s) = daily_target s"
  "page_dialog (started now r s) = page_dialog s"
  "log_dialog_open (started now r s) = log_dialog_open s"
  "snack_bar (started now r s) = snack_bar s"
  by (simp_all add: started_def update_quote_frame)

lemma start_work_working:
  "is_working s \<Longrightarrow> start_work now r s =
     Inr (s\<lparr>is_working := False, btn_label_control := Label_start,
            start_btn_style := Green_700, status_text := Status_paused,
            target_dropdown_disabled := False\<rparr>, False)"
  by (simp add: start_work_def)

lemma start_work_idle:
  "\<not> is_working s \<Longrightarrow> start_work now r s = run_timer_body (started now r s)"
  by (simp add: start_work_def Let_def run_timer_iter_def started_def update_quote_frame)

lemma div_chain: "(e::int) div 60 div 60 = e div 3600"
proof -
  have "e div (60 * 60) = e div 60 div 60" by (rule zdiv_zmult2_eq) simp
  then show ?thesis by simp
qed

lemma mod_chain: "(e::int) div 60 mod 60 = e mod 3600 div 60"
proof -
  have "e mod (60 * 60) = 60 * (e div 60 mod 60) + e mod 60"
    by (rule zmod_zmult2_eq) simp
  then have "e mod 3600 div 60 = (60 * (e div 60 mod 60) + e mod 60) div 60" by simp
  then show ?thesis by simp
qed

lemma run_timer_body_zero:
  assumes "daily_target s = 0"
  shows "run_timer_body s = Inl (ZeroDivisionError, ticked s)"
  using assms
  by (simp add: run_timer_body_def ticked_def Let_def py_divmod_def div_chain mod_chain)

lemma run_timer_body_nonzero:
  assumes "daily_target s \<noteq> 0"
  shows "run_timer_body s =
     (if (worked_seconds s + 1) mod CHECK_IN_INTERVAL = 0 \<and> 0 < worked_seconds s + 1
      then Inr ((ticked s)\<lparr>progress_bar :=
                   min (of_int (worked_seconds s + 1) / of_int (daily_target s * 3600)) 1,
                 page_dialog := True, log_dialog_open := True,
                 snack_bar := Some Snack_bell\<rparr>, True)
      else Inr ((ticked s)\<lparr>progress_bar :=
                   min (of_int (worked_seconds s + 1) / of_int (daily_target s * 3600)) 1\<rparr>, False))"
  using assms
  by (simp add: run_timer_body_def ticked_def Let_def py_divmod_def div_chain mod_chain)

lemma ticked_frame:
  "worked_seconds (ticked s) = worked_seconds s + 1"
  "is_working (ticked s) = is_working s"
  "daily_target (ticked s) = daily_target s"
  "target_dropdown_disabled (ticked s) = target_dropdown_disabled s"
  "conn (ticked s) = conn s"
  "page_dialog (ticked s) = page_dialog s"
  "log_dialog_open (ticked s) = log_dialog_open s"
  "snack_bar (ticked s) = snack_bar s"
  by (simp_all add: ticked_def)

lemma body_opens_iff:
  "body_opens s \<longleftrightarrow>
     daily_target s \<noteq> 0 \<and> (worked_seconds s + 1) mod CHECK_IN_INTERVAL = 0 \<and>
     0 < worked_seconds s + 1"
proof (cases "daily_target s = 0")
  case True
  then show ?thesis by (simp add: body_opens_def run_timer_body_zero)
next
  case False
  then show ?thesis by (simp add: body_opens_def run_timer_body_nonzero)
qed

lemma after_body_frame:
  "worked_seconds (after_body s) = worked_seconds s + 1"
  "is_working (after_body s) = is_working s"
  "daily_target (after_body s) = daily_target s"
  "target_dropdown_disabled (after_body s) = target_dropdown_disabled s"
  "conn (after_body s) = conn s"
proof -
  have "worked_seconds (after_body s) = worked_seconds s + 1 \<and>
        is_working (after_body s) = is_working s \<and>
        daily_target (after_body s) = daily_target s \<and>
        target_dropdown_disabled (after_body s) = target_dropdown_disabled s \<and>
        conn (after_body s) = conn s"
  proof (cases "daily_target s = 0")
    case True
    then show ?thesis
      by (simp add: after_body_def run_timer_body_zero final_def ticked_frame)
  next
    case False
    then show ?thesis
      by (simp add: after_body_def run_timer_body_nonzero final_def ticked_frame)
  qed
  then show "worked_seconds (after_body s) = worked_seconds s + 1"
    "is_working (after_body s) = is_working s"
    "daily_target (after_body s) = daily_target s"
    "target_dropdown_disabled (after_body s) = target_dropdown_disabled s"
    "conn (after_body s) = conn s"
    by simp_all
qed

lemma after_body_opened:
  assumes "body_opens s"
  shows "page_dialog (after_body s) \<and> log_dialog_open (after_body s) \<and>
         snack_bar (after_body s) = Some Snack_bell"
proof -
  from assms have nz: "daily_target s \<noteq> 0"
    and c: "(worked_seconds s + 1) mod CHECK_IN_INTERVAL = 0 \<and> 0 < worked_seconds s + 1"
    by (simp_all add: body_opens_iff)
  show ?thesis
    using c by (simp add: after_body_def run_timer_body_nonzero [OF nz] final_def)
qed

lemma after_body_not_opened:
  assumes "\<not> body_opens s"
  shows "page_dialog (after_body s) = page_dialog s \<and>
         log_dialog_open (after_body s) = log_dialog_open s \<and>
         snack_bar (after_body s) = snack_bar s"
proof (cases "daily_target s = 0")
  case True
  then show ?thesis
    by (simp add: after_body_def run_timer_body_zero final_def ticked_frame)
next
  case False
  with assms have "\<not> ((worked_seconds s + 1) mod CHECK_IN_INTERVAL = 0 \<and>
      0 < worked_seconds s + 1)"
    by (simp add: body_opens_iff)
  then have "run_timer_body s =
      Inr ((ticked s)\<lparr>progress_bar :=
              min (of_int (worked_seconds s + 1) / of_int (daily_target s * 3600)) 1\<rparr>, False)"
    unfolding run_timer_body_nonzero [OF False] by (rule if_not_P)
  then show ?thesis by (simp add: after_body_def final_def ticked_frame)
qed

lemma step_Timer_turn: "step Timer_turn s = (if is_working s then after_body s else s)"
  by (simp add: run_timer_iter_def after_body_def final_def)

lemma step_Start_click:
  "step (Start_click now r) s =
     (if is_working s
      then s\<lparr>is_working := False, btn_label_control := Label_start,
             start_btn_style := Green_700, status_text := Status_paused,
             target_dropdown_disabled := False\<rparr>
      else after_body (started now r s))"
  by (simp add: start_work_working start_work_idle after_body_def final_def)

lemma opens_dialog_Timer_turn: "opens_dialog Timer_turn s \<longleftrightarrow> is_working s \<and> body_opens s"
  by (simp add: run_timer_iter_def body_opens_def)

lemma opens_dialog_Start_click:
  "opens_dialog (Start_click now r) s \<longleftrightarrow> \<not> is_working s \<and> body_opens (started now r s)"
proof (cases "is_working s")
  case True
  then show ?thesis by (simp add: start_work_working)
next
  case False
  then show ?thesis by (simp add: start_work_idle body_opens_def)
qed

lemma py_int_options:
  "v \<in> set target_options \<Longrightarrow> \<exists>h \<in> {3, 5, 8, 10, 12}. py_int v = Some h"
  by (auto simp: target_options_def py_int_def digit_value_def)

lemma step_Target_change:
  "step (Target_change v) s =
     (case py_int v of
        None \<Rightarrow> s\<lparr>target_dropdown_value := v\<rparr>
      | Some h \<Rightarrow> s\<lparr>target_dropdown_value := v, daily_target := h\<rparr>)"
  by (simp add: on_target_change_def final_def split: option.splits)

lemmas step_other = step.simps(4-10)

declare step.simps [simp del]

declare opens_dialog.simps [simp del]

lemma opens_dialog_iff:
  "opens_dialog e s \<longleftrightarrow>
     runs_body e s \<and> daily_target s \<noteq> 0 \<and>
     (worked_seconds s + 1) mod CHECK_IN_INTERVAL = 0 \<and> 0 < worked_seconds s + 1"
proof (cases e)
  case (Start_click now r)
  then show ?thesis
    by (auto simp: opens_dialog_Start_click body_opens_iff started_frame)
next
  case Timer_turn
  then show ?thesis by (auto simp: opens_dialog_Timer_turn body_opens_iff)
qed (simp_all add: opens_dialog.simps)

lemma step_worked_seconds:
  "worked_seconds (step e s) =
     (if runs_body e s then worked_seconds s + 1 else worked_seconds s)"
proof (cases e)
  case (Start_click now r)
  then show ?thesis by (simp add: step_Start_click after_body_frame started_frame)
next
  case Timer_turn
  then show ?thesis by (simp add: step_Timer_turn after_body_frame)
next
  case (Target_change v)
  then show ?thesis by (simp add: step_Target_change split: option.splits)
next
  case (Delete_click row c)
  then show ?thesis by (simp add: step_other delete_task_def final_def split: option.splits)
next
  case Add_click
  then show ?thesis by (simp add: step_other add_task_def Let_def)
next
  case (Yes_click now)
  then show ?thesis
    by (simp add: step_other handle_yes_def Let_def log_activity_def close_dialog_def)
next
  case (No_click now)
  then show ?thesis
    by (simp add: step_other handle_no_def Let_def log_activity_def close_dialog_def)
qed (simp_all add: step_other set_focus_task_def)

lemma step_is_working:
  "is_working (step e s) =
     (if \<exists>now r. e = Start_click now r then \<not> is_working s else is_working s)"
proof (cases e)
  case (Start_click now r)
  then show ?thesis by (simp add: step_Start_click after_body_frame started_frame)
next
  case Timer_turn
  then show ?thesis by (simp add: step_Timer_turn after_body_frame)
next
  case (Target_change v)
  then show ?thesis by (simp add: step_Target_change split: option.splits)
next
  case (Delete_click row c)
  then show ?thesis by (simp add: step_other delete_task_def final_def split: option.splits)
next
  case Add_click
  then show ?thesis by (simp add: step_other add_task_def Let_def)
next
  case (Yes_click now)
  then show ?thesis
    by (simp add: step_other handle_yes_def Let_def log_activity_def close_dialog_def)
next
  case (No_click now)
  then show ?thesis
    by (simp add: step_other handle_no_def Let_def log_activity_def close_dialog_def)
qed (simp_all add: step_other set_focus_task_def)

lemma run_worked_seconds_mono: "worked_seconds s \<le> worked_seconds (run es s)"
proof (induction es arbitrary: s)
  case Nil
  then show ?case by simp
next
  case (Cons e es)
  have "worked_seconds s \<le> worked_seconds (step e s)" by (simp add: step_worked_seconds)
  also have "\<dots> \<le> worked_seconds (run es (step e s))" by (rule Cons.IH)
  finally show ?case by simp
qed

lemma initial_fields:
  "\<not> is_working (initial qs f r)"
  "worked_seconds (initial qs f r) = 0"
  "daily_target (initial qs f r) = 10"
  "\<not> target_dropdown_disabled (initial qs f r)"
  "conn (initial qs f r) = create_tables f"
  "\<not> page_dialog (initial qs f r)"
  "\<not> log_dialog_open (initial qs f r)"
  "tasks_column (initial qs f r) = []"
  "next_control (initial qs f r) = 0"
  by (simp_all add: initial_def update_quote_def DEFAULT_TARGET_HOURS_def)

lemma runs_body_iff:
  "runs_body e s \<longleftrightarrow>
     (e = Timer_turn \<and> is_working s) \<or> ((\<exists>now r. e = Start_click now r) \<and> \<not> is_working s)"
  by (cases e) simp_all

section \<open>Pause and resume\<close>

text \<open>
  C4, as the code has it. In a working state the click on the start button stops work and
  leaves \<open>worked_seconds\<close> as it is (the handler returns without opening the dialog). The
  next click, in the idle state, starts work again and never resets the count, but it
  does not leave it unchanged: the click enters the timer loop, whose first turn runs in
  the same dispatch, so the count is exactly one higher than before the pause.
\<close>

theorem resume_runs_first_turn:
  assumes "is_working s"
  shows "start_work t1 r1 s = Inr (step (Start_click t1 r1) s, False) \<and>
         \<not> is_working (step (Start_click t1 r1) s) \<and>
         worked_seconds (step (Start_click t1 r1) s) = worked_seconds s \<and>
         is_working (step (Start_click t2 r2) (step (Start_click t1 r1) s)) \<and>
         worked_seconds (step (Start_click t2 r2) (step (Start_click t1 r1) s)) =
           worked_seconds s + 1"
proof -
  let ?p = "step (Start_click t1 r1) s"
  have r: "start_work t1 r1 s = Inr (?p, False)"
    using assms by (simp add: step_Start_click start_work_working)
  have p: "\<not> is_working ?p" "worked_seconds ?p = worked_seconds s"
    using assms by (simp_all add: step_is_working step_worked_seconds)
  have "is_working (step (Start_click t2 r2) ?p)"
    "worked_seconds (step (Start_click t2 r2) ?p) = worked_seconds ?p + 1"
    using p(1) by (simp_all add: step_is_working step_worked_seconds)
  with r p show ?thesis by simp
qed

theorem resume_runs_first_turn_witness:
  "is_working (run [Start_click 0 0, Timer_turn] (initial [] None 0)) \<and>
   worked_seconds (run [Start_click 0 0, Timer_turn] (initial [] None 0)) = 2 \<and>
   \<not> is_working (step (Start_click 7 0) (run [Start_click 0 0, Timer_turn] (initial [] None 0))) \<and>
   worked_seconds (step (Start_click 7 0)
      (run [Start_click 0 0, Timer_turn] (initial [] None 0))) = 2 \<and>
   is_working (step (Start_click 9 1) (step (Start_click 7 0)
      (run [Start_click 0 0, Timer_turn] (initial [] None 0)))) \<and>
   worked_seconds (step (Start_click 9 1) (step (Start_click 7 0)
      (run [Start_click 0 0, Timer_turn] (initial [] None 0)))) = 3"
proof -
  let ?s = "run [Start_click 0 0, Timer_turn] (initial [] None 0)"
  have h: "is_working ?s"
    by (simp add: step_is_working initial_fields)
  have w: "worked_seconds ?s = 2"
    by (simp add: step_worked_seconds step_is_working initial_fields)
  show ?thesis
    using resume_runs_first_turn [OF h, of 7 0 9 1] h unfolding w by simp
qed

text \<open>
  The claim as the spec states it (the resuming click leaves the count unchanged) fails:
  after two seconds of work, a pause and a resume, the count is three.
\<close>

theorem toggle_keeps_elapsed_counterexample:
  "is_working (run [Start_click 0 0, Timer_turn] (initial [] None 0)) \<and>
   worked_seconds (run [Start_click 0 0, Timer_turn] (initial [] None 0)) = 2 \<and>
   worked_seconds (run [Start_click 0 0, Timer_turn, Start_click 7 0, Start_click 9 1]
      (initial [] None 0)) = 3"
  by (simp add: step_worked_seconds step_is_working initial_fields)

text \<open>
  C8. A click on the start button in a working state returns normally, ends in the idle
  state and writes nothing to the log store, whether or not the check-in dialog is open:
  the table is the same before and after, and the dialog is left as it was (an unanswered
  prompt is simply abandoned).
\<close>

theorem stop_writes_no_log:
  assumes "is_working s"
  shows "\<exists>s'. start_work now r s = Inr (s', False) \<and> step (Start_click now r) s = s' \<and>
         protocol s' = IDLE \<and> conn s' = conn s \<and>
         page_dialog s' = page_dialog s \<and> log_dialog_open s' = log_dialog_open s"
  using assms by (simp add: start_work_working step_Start_click protocol_def)

theorem stop_writes_no_log_witness:
  "is_working ((initial [] None 0)\<lparr>is_working := True, page_dialog := True, log_dialog_open := True\<rparr>) \<and>
   protocol ((initial [] None 0)\<lparr>is_working := True, page_dialog := True, log_dialog_open := True\<rparr>)
     = AWAITING_CHECKIN \<and>
   (\<exists>s'. start_work 5 0
       ((initial [] None 0)\<lparr>is_working := True, page_dialog := True, log_dialog_open := True\<rparr>)
       = Inr (s', False) \<and>
     protocol s' = IDLE \<and> hourly_logs (conn s') = [] \<and> log_dialog_open s')"
proof -
  let ?s = "(initial [] None 0)\<lparr>is_working := True, page_dialog := True, log_dialog_open := True\<rparr>"
  have h: "is_working ?s" by simp
  have p: "protocol ?s = AWAITING_CHECKIN" by (simp add: protocol_def)
  have c: "hourly_logs (conn ?s) = []" "log_dialog_open ?s"
    by (simp_all add: initial_fields create_tables_def)
  from stop_writes_no_log [OF h, of 5 0] obtain s' where
    s': "start_work 5 0 ?s = Inr (s', False)" "protocol s' = IDLE" "conn s' = conn ?s"
      "log_dialog_open s' = log_dialog_open ?s"
    by blast
  have "\<exists>s'. start_work 5 0 ?s = Inr (s', False) \<and> protocol s' = IDLE \<and>
      hourly_logs (conn s') = [] \<and> log_dialog_open s'"
    apply (rule exI [of _ s'])
    using s' c by simp
  with h p show ?thesis by (intro conjI)
qed

section \<open>The counter over executions\<close>

text \<open>
  C3, as the code has it. Along every sequence of events \<open>worked_seconds\<close> never
  decreases. A single event changes it only by running the body of the timer loop once,
  in a state that is working when the body has run, and then by exactly one: that is a
  turn of the loop in a working state, or the start click in an idle state, which enters
  the loop and runs its first turn at once. The stopping click, the choice of a target,
  focus, answers, tasks and typing leave it as it is.
\<close>

theorem elapsed_grows_only_by_loop_body:
  "worked_seconds s \<le> worked_seconds (run es s) \<and>
   worked_seconds s \<le> worked_seconds (step e s) \<and>
   (worked_seconds (step e s) \<noteq> worked_seconds s \<longrightarrow>
      ((e = Timer_turn \<and> is_working s) \<or>
       ((\<exists>now r. e = Start_click now r) \<and> \<not> is_working s)) \<and>
      is_working (step e s) \<and>
      worked_seconds (step e s) = worked_seconds s + 1)"
proof -
  have a: "worked_seconds s \<le> worked_seconds (run es s)" by (rule run_worked_seconds_mono)
  have b: "worked_seconds s \<le> worked_seconds (step e s)" by (simp add: step_worked_seconds)
  have c: "worked_seconds (step e s) \<noteq> worked_seconds s \<longrightarrow>
      ((e = Timer_turn \<and> is_working s) \<or>
       ((\<exists>now r. e = Start_click now r) \<and> \<not> is_working s)) \<and>
      is_working (step e s) \<and>
      worked_seconds (step e s) = worked_seconds s + 1"
  proof
    assume "worked_seconds (step e s) \<noteq> worked_seconds s"
    then have rb: "runs_body e s" by (simp add: step_worked_seconds split: if_splits)
    then have d: "(e = Timer_turn \<and> is_working s) \<or>
       ((\<exists>now r. e = Start_click now r) \<and> \<not> is_working s)"
      by (simp add: runs_body_iff)
    then have "is_working (step e s)" by (auto simp: step_is_working)
    moreover have "worked_seconds (step e s) = worked_seconds s + 1"
      using rb by (simp add: step_worked_seconds)
    ultimately show "((e = Timer_turn \<and> is_working s) \<or>
       ((\<exists>now r. e = Start_click now r) \<and> \<not> is_working s)) \<and>
      is_working (step e s) \<and>
      worked_seconds (step e s) = worked_seconds s + 1"
      using d by simp
  qed
  from a b c show ?thesis by (intro conjI)
qed

theorem elapsed_grows_only_by_loop_body_witness:
  "worked_seconds (step Timer_turn (step (Start_click 0 0) (initial [] None 0))) \<noteq>
     worked_seconds (step (Start_click 0 0) (initial [] None 0)) \<and>
   is_working (step (Start_click 0 0) (initial [] None 0)) \<and>
   is_working (step Timer_turn (step (Start_click 0 0) (initial [] None 0))) \<and>
   worked_seconds (step Timer_turn (step (Start_click 0 0) (initial [] None 0))) =
     worked_seconds (step (Start_click 0 0) (initial [] None 0)) + 1 \<and>
   worked_seconds (step (Start_click 0 0) (initial [] None 0)) \<le>
     worked_seconds (run [Timer_turn, Start_click 3 0, Timer_turn, Yes_click 4]
       (step (Start_click 0 0) (initial [] None 0)))"
proof -
  let ?s = "step (Start_click 0 0) (initial [] None 0)"
  have w: "is_working ?s" by (simp add: step_is_working initial_fields)
  have ne: "worked_seconds (step Timer_turn ?s) \<noteq> worked_seconds ?s"
    using w by (simp add: step_worked_seconds)
  note T = elapsed_grows_only_by_loop_body
      [of ?s "[Timer_turn, Start_click 3 0, Timer_turn, Yes_click 4]" Timer_turn]
  from T have m: "worked_seconds ?s \<le>
      worked_seconds (run [Timer_turn, Start_click 3 0, Timer_turn, Yes_click 4] ?s)"
    by (rule conjunct1)
  from T [THEN conjunct2, THEN conjunct2] ne
  have "is_working (step Timer_turn ?s) \<and>
      worked_seconds (step Timer_turn ?s) = worked_seconds ?s + 1"
    by simp
  with ne w m show ?thesis by simp
qed

text \<open>
  The claim as the spec states it (no operation but a tick changes the count) fails at the
  start click: from the initial state, where nothing has been counted, the click alone
  leaves the count at one.
\<close>

theorem elapsed_only_by_ticks_counterexample:
  "\<not> is_working (initial [] None 0) \<and>
   worked_seconds (initial [] None 0) = 0 \<and>
   worked_seconds (step (Start_click 0 0) (initial [] None 0)) = 1"
  by (simp add: step_worked_seconds initial_fields)

section \<open>Tasks and focus\<close>

text \<open>
  C9. With an empty task field \<open>add_task\<close> returns the state it was given, and it cannot
  raise; with a non-empty field it appends exactly one row, holding that text, to the list.
\<close>

theorem add_task_empty_noop:
  "(task_input s = [] \<longrightarrow> add_task s = s) \<and>
   (task_input s \<noteq> [] \<longrightarrow>
      tasks_column (add_task s) =
        tasks_column s @ [\<lparr>control = next_control s, task_text = task_input s, checkbox = False\<rparr>] \<and>
      length (tasks_column (add_task s)) = Suc (length (tasks_column s)))"
  by (simp add: add_task_def Let_def)

theorem add_task_empty_noop_witness:
  "task_input ((initial [] None 0)\<lparr>task_input := []\<rparr>) = [] \<and>
   add_task ((initial [] None 0)\<lparr>task_input := []\<rparr>) = (initial [] None 0)\<lparr>task_input := []\<rparr> \<and>
   task_input ((initial [] None 0)\<lparr>task_input := ''read''\<rparr>) \<noteq> [] \<and>
   tasks_column (add_task ((initial [] None 0)\<lparr>task_input := ''read''\<rparr>)) =
     [\<lparr>control = 0, task_text = ''read'', checkbox = False\<rparr>]"
proof -
  let ?a = "(initial [] None 0)\<lparr>task_input := []\<rparr>"
  let ?b = "(initial [] None 0)\<lparr>task_input := ''read''\<rparr>"
  have a: "task_input ?a = []" by simp
  have b: "task_input ?b \<noteq> []" "task_input ?b = ''read''" by simp_all
  have n: "next_control ?b = 0" "tasks_column ?b = []"
    by (simp_all add: initial_def update_quote_def)
  show ?thesis
    using add_task_empty_noop [of ?a] add_task_empty_noop [of ?b] a b n by simp
qed

lemma list_remove_Some:
  "list_remove c ts = Some ts' \<Longrightarrow> distinct (map control ts) \<Longrightarrow>
     ts' = filter (\<lambda>t. control t \<noteq> c) ts \<and> c \<in> control ` set ts"
proof (induction ts arbitrary: ts')
  case Nil
  then show ?case by simp
next
  case (Cons t ts)
  show ?case
  proof (cases "control t = c")
    case True
    with Cons.prems have "ts' = ts" "c \<notin> control ` set ts" by auto
    then have "filter (\<lambda>t. control t \<noteq> c) ts = ts"
      by (auto simp: filter_id_conv)
    with True \<open>ts' = ts\<close> show ?thesis by simp
  next
    case False
    with Cons.prems obtain us where us: "list_remove c ts = Some us" "ts' = t # us"
      by auto
    with Cons.IH [OF us(1)] Cons.prems(2) False show ?thesis by simp
  qed
qed

text \<open>
  C10. Deleting a row leaves \<open>current_focus_label\<close> and \<open>current_task_focus\<close> as they were,
  so the label keeps the text the last \<open>set_focus_task\<close> copied into it; and the deleted
  container is no longer in the list (the containers of a list are distinct).
\<close>

theorem delete_task_keeps_focus:
  assumes "delete_task row c s = Inr s'"
  shows "current_focus_label s' = current_focus_label s \<and>
         current_task_focus s' = current_task_focus s \<and>
         (distinct (map control (tasks_column s)) \<longrightarrow>
            c \<in> control ` set (tasks_column s) \<and> c \<notin> control ` set (tasks_column s'))"
proof -
  from assms obtain ts where ts: "list_remove c (tasks_column s) = Some ts"
    and s': "s' = s\<lparr>tasks_column := ts\<rparr>"
    by (auto simp: delete_task_def split: option.splits)
  show ?thesis using list_remove_Some [OF ts] s' by auto
qed

theorem delete_task_keeps_focus_witness:
  "delete_task ''read'' 0
     (set_focus_task ''read'' (add_task ((initial [] None 0)\<lparr>task_input := ''read''\<rparr>))) =
     Inr ((set_focus_task ''read'' (add_task ((initial [] None 0)\<lparr>task_input := ''read''\<rparr>)))
           \<lparr>tasks_column := []\<rparr>) \<and>
   distinct (map control (tasks_column
     (set_focus_task ''read'' (add_task ((initial [] None 0)\<lparr>task_input := ''read''\<rparr>))))) \<and>
   current_focus_label ((set_focus_task ''read''
       (add_task ((initial [] None 0)\<lparr>task_input := ''read''\<rparr>)))\<lparr>tasks_column := []\<rparr>) =
     focus_prefix @ ''read'' \<and>
   current_task_focus ((set_focus_task ''read''
       (add_task ((initial [] None 0)\<lparr>task_input := ''read''\<rparr>)))\<lparr>tasks_column := []\<rparr>) = ''read''"
proof -
  let ?s = "set_focus_task ''read'' (add_task ((initial [] None 0)\<lparr>task_input := ''read''\<rparr>))"
  have ts: "tasks_column ?s = [\<lparr>control = 0, task_text = ''read'', checkbox = False\<rparr>]"
    by (simp add: set_focus_task_def add_task_def Let_def initial_def update_quote_def)
  have d: "delete_task ''read'' 0 ?s = Inr (?s\<lparr>tasks_column := []\<rparr>)"
    by (simp add: delete_task_def ts)
  have f: "current_focus_label ?s = focus_prefix @ ''read''" "current_task_focus ?s = ''read''"
    by (simp_all add: set_focus_task_def)
  show ?thesis using delete_task_keeps_focus [OF d] d f ts by simp
qed

section \<open>The log store\<close>

lemma fold_max_ge: "(a::int) \<le> fold max xs a"
proof (induction xs arbitrary: a)
  case Nil
  then show ?case by simp
next
  case (Cons x xs)
  have "a \<le> max x a" by simp
  also have "\<dots> \<le> fold max xs (max x a)" by (rule Cons.IH)
  finally show ?case by simp
qed

lemma fold_max_upper: "x \<in> set xs \<Longrightarrow> (x::int) \<le> fold max xs a"
proof (induction xs arbitrary: a)
  case Nil
  then show ?case by simp
next
  case (Cons y ys)
  show ?case
  proof (cases "x = y")
    case True
    have "x \<le> max y a" using True by simp
    also have "\<dots> \<le> fold max ys (max y a)" by (rule fold_max_ge)
    finally show ?thesis by simp
  next
    case False
    with Cons.prems have "x \<in> set ys" by simp
    then show ?thesis using Cons.IH by simp
  qed
qed

lemma next_rowid_fresh: "e \<in> set (hourly_logs db) \<Longrightarrow> log_id e < next_rowid db"
proof -
  assume "e \<in> set (hourly_logs db)"
  then have "log_id e \<in> set (map log_id (hourly_logs db))" by simp
  then have "log_id e \<le> fold max (map log_id (hourly_logs db)) (sqlite_sequence db)"
    by (rule fold_max_upper)
  then show ?thesis by (simp add: next_rowid_def)
qed

lemma insert_log_rows:
  "hourly_logs (insert_log now a sc db) = hourly_logs db @
     [\<lparr>log_id = next_rowid db, timestamp = now, activity = a, productivity_score = sc\<rparr>]"
  by (simp add: insert_log_def Let_def)

lemma next_rowid_insert: "next_rowid db < next_rowid (insert_log now a sc db)"
proof -
  let ?e = "\<lparr>log_id = next_rowid db, timestamp = now, activity = a, productivity_score = sc\<rparr>"
  have "?e \<in> set (hourly_logs (insert_log now a sc db))" by (simp add: insert_log_rows)
  from next_rowid_fresh [OF this] show ?thesis by simp
qed

lemma sorted_ids_insert:
  assumes "sorted_wrt (<) (map log_id (hourly_logs db))"
  shows "sorted_wrt (<) (map log_id (hourly_logs (insert_log now a sc db)))"
  using assms next_rowid_fresh [of _ db]
  by (auto simp: insert_log_rows sorted_wrt_append)

lemma scan_sorted:
  "sorted_wrt (<) (map log_id (hourly_logs db)) \<Longrightarrow> scan_by_id db = hourly_logs db"
  unfolding scan_by_id_def
  by (intro sort_key_id_if_sorted strict_sorted_imp_sorted)

lemma step_rows_prefix: "prefix (hourly_logs (conn s)) (hourly_logs (conn (step e s)))"
proof (cases e)
  case (Start_click now r)
  then show ?thesis by (simp add: step_Start_click after_body_frame started_frame)
next
  case Timer_turn
  then show ?thesis by (simp add: step_Timer_turn after_body_frame)
next
  case (Target_change v)
  then show ?thesis by (simp add: step_Target_change split: option.splits)
next
  case (Delete_click row c)
  then show ?thesis by (simp add: step_other delete_task_def final_def split: option.splits)
next
  case Add_click
  then show ?thesis by (simp add: step_other add_task_def Let_def)
next
  case (Yes_click now)
  then show ?thesis
    by (simp add: step_other handle_yes_def Let_def log_activity_def insert_log_rows
        close_dialog_def)
next
  case (No_click now)
  then show ?thesis
    by (simp add: step_other handle_no_def Let_def log_activity_def insert_log_rows
        close_dialog_def)
qed (simp_all add: step_other set_focus_task_def)

lemma run_rows_prefix: "prefix (hourly_logs (conn s)) (hourly_logs (conn (run es s)))"
proof (induction es arbitrary: s)
  case Nil
  then show ?case by simp
next
  case (Cons e es)
  have "prefix (hourly_logs (conn s)) (hourly_logs (conn (step e s)))"
    by (rule step_rows_prefix)
  also have "prefix \<dots> (hourly_logs (conn (run es (step e s))))"
    by (rule Cons.IH)
  finally show ?case by simp
qed

text \<open>
  C6, as the code has it. Each \<open>log_activity\<close> appends exactly one row, with the given
  text and score. The id of the row is above every id in the table, so of two calls in a
  row the second gets the larger id. The timestamp of a row is the reading of
  \<open>datetime.now()\<close> taken at its call and nothing else: the second timestamp is not
  smaller than the first exactly when the wall clock has not gone back between the two
  readings. No event of the application removes or rewrites a row (the old table is a
  prefix of the new one after any execution), and on a table with increasing ids the scan
  by id returns the old rows followed by the two new ones, in the order of insertion.
\<close>

theorem record_appends_with_clock_reading:
  "\<exists>e1 e2.
     hourly_logs (conn (log_activity t1 a1 sc1 s)) = hourly_logs (conn s) @ [e1] \<and>
     hourly_logs (conn (log_activity t2 a2 sc2 (log_activity t1 a1 sc1 s))) =
       hourly_logs (conn s) @ [e1, e2] \<and>
     timestamp e1 = t1 \<and> activity e1 = a1 \<and> productivity_score e1 = sc1 \<and>
     timestamp e2 = t2 \<and> activity e2 = a2 \<and> productivity_score e2 = sc2 \<and>
     log_id e1 < log_id e2 \<and>
     (\<forall>e \<in> set (hourly_logs (conn s)). log_id e < log_id e1) \<and>
     (timestamp e1 \<le> timestamp e2 \<longleftrightarrow> t1 \<le> t2) \<and>
     prefix (hourly_logs (conn s)) (hourly_logs (conn (run es s))) \<and>
     (sorted_wrt (<) (map log_id (hourly_logs (conn s))) \<longrightarrow>
        scan_by_id (conn (log_activity t2 a2 sc2 (log_activity t1 a1 sc1 s))) =
          scan_by_id (conn s) @ [e1, e2])"
proof -
  let ?db = "conn s"
  let ?db1 = "insert_log t1 a1 sc1 ?db"
  let ?db2 = "insert_log t2 a2 sc2 ?db1"
  let ?e1 = "\<lparr>log_id = next_rowid ?db, timestamp = t1, activity = a1, productivity_score = sc1\<rparr>"
  let ?e2 = "\<lparr>log_id = next_rowid ?db1, timestamp = t2, activity = a2, productivity_score = sc2\<rparr>"
  have c1: "conn (log_activity t1 a1 sc1 s) = ?db1"
    and c2: "conn (log_activity t2 a2 sc2 (log_activity t1 a1 sc1 s)) = ?db2"
    by (simp_all add: log_activity_def)
  have r1: "hourly_logs ?db1 = hourly_logs ?db @ [?e1]" by (rule insert_log_rows)
  have r2: "hourly_logs ?db2 = hourly_logs ?db @ [?e1, ?e2]"
    by (simp add: insert_log_rows [of t2 a2 sc2 ?db1] r1)
  have lt: "log_id ?e1 < log_id ?e2" using next_rowid_insert [of ?db t1 a1 sc1] by simp
  have fresh: "\<forall>e \<in> set (hourly_logs ?db). log_id e < log_id ?e1"
    using next_rowid_fresh [of _ ?db] by simp
  have scan: "scan_by_id ?db2 = scan_by_id ?db @ [?e1, ?e2]"
    if "sorted_wrt (<) (map log_id (hourly_logs ?db))"
  proof -
    have "sorted_wrt (<) (map log_id (hourly_logs ?db2))"
      by (intro sorted_ids_insert that)
    then have "scan_by_id ?db2 = hourly_logs ?db2" by (rule scan_sorted)
    moreover have "scan_by_id ?db = hourly_logs ?db" using that by (rule scan_sorted)
    ultimately show ?thesis using r2 by simp
  qed
  show ?thesis
    apply (rule exI [of _ ?e1], rule exI [of _ ?e2])
    unfolding c1 c2
    using r1 r2 lt fresh scan run_rows_prefix [of s es] by simp
qed

theorem record_appends_with_clock_reading_witness:
  "\<exists>e1 e2.
     hourly_logs (conn (log_activity 200 ''b'' 0 (log_activity 100 ''a'' 1
       (initial [] (Some \<lparr>hourly_logs = [\<lparr>log_id = 4, timestamp = 50, activity = ''old'',
          productivity_score = 1\<rparr>], sqlite_sequence = 7\<rparr>) 0)))) =
       [\<lparr>log_id = 4, timestamp = 50, activity = ''old'', productivity_score = 1\<rparr>, e1, e2] \<and>
     log_id e1 = 8 \<and> log_id e1 < log_id e2 \<and>
     timestamp e1 = 100 \<and> timestamp e2 = 200 \<and>
     productivity_score e1 = 1 \<and> productivity_score e2 = 0 \<and>
     scan_by_id (conn (log_activity 200 ''b'' 0 (log_activity 100 ''a'' 1
       (initial [] (Some \<lparr>hourly_logs = [\<lparr>log_id = 4, timestamp = 50, activity = ''old'',
          productivity_score = 1\<rparr>], sqlite_sequence = 7\<rparr>) 0)))) =
       [\<lparr>log_id = 4, timestamp = 50, activity = ''old'', productivity_score = 1\<rparr>, e1, e2]"
proof -
  let ?row = "\<lparr>log_id = 4, timestamp = 50, activity = ''old'', productivity_score = 1\<rparr>"
  let ?s = "initial [] (Some \<lparr>hourly_logs = [?row], sqlite_sequence = 7\<rparr>) 0"
  have c: "conn ?s = \<lparr>hourly_logs = [?row], sqlite_sequence = 7\<rparr>"
    by (simp add: initial_fields create_tables_def)
  have srt: "sorted_wrt (<) (map log_id (hourly_logs (conn ?s)))" by (simp add: c)
  have sc: "scan_by_id (conn ?s) = [?row]" by (simp add: c scan_by_id_def)
  from record_appends_with_clock_reading [of 100 "''a''" 1 ?s 200 "''b''" 0 "[]"]
  obtain e1 e2 where
    r1: "hourly_logs (conn (log_activity 100 ''a'' 1 ?s)) = hourly_logs (conn ?s) @ [e1]"
    and r2: "hourly_logs (conn (log_activity 200 ''b'' 0 (log_activity 100 ''a'' 1 ?s))) =
       hourly_logs (conn ?s) @ [e1, e2]"
    and f: "timestamp e1 = 100" "productivity_score e1 = 1" "timestamp e2 = 200"
      "productivity_score e2 = 0" "log_id e1 < log_id e2"
    and s: "sorted_wrt (<) (map log_id (hourly_logs (conn ?s))) \<longrightarrow>
        scan_by_id (conn (log_activity 200 ''b'' 0 (log_activity 100 ''a'' 1 ?s))) =
          scan_by_id (conn ?s) @ [e1, e2]"
    by blast
  have "hourly_logs (conn (log_activity 100 ''a'' 1 ?s)) =
      [?row, \<lparr>log_id = 8, timestamp = 100, activity = ''a'', productivity_score = 1\<rparr>]"
    by (simp add: log_activity_def insert_log_def Let_def next_rowid_def c)
  with r1 have "e1 = \<lparr>log_id = 8, timestamp = 100, activity = ''a'', productivity_score = 1\<rparr>"
    by (simp add: c)
  then have i: "log_id e1 = 8" by simp
  show ?thesis
    apply (rule exI [of _ e1], rule exI [of _ e2])
    using r2 f s srt sc i by (simp add: c)
qed

text \<open>
  The claim as the spec states it (the second timestamp is never below the first) fails
  when the wall clock is set back between the calls: with the readings 200 and then 100
  the table holds the ids 1, 2 with the timestamps 200, 100.
\<close>

theorem record_timestamps_counterexample:
  "map log_id (hourly_logs (conn
      (log_activity 100 ''b'' 0 (log_activity 200 ''a'' 1 (initial [] None 0))))) = [1, 2] \<and>
   map timestamp (hourly_logs (conn
      (log_activity 100 ''b'' 0 (log_activity 200 ''a'' 1 (initial [] None 0))))) = [200, 100]"
  by (simp add: log_activity_def insert_log_def Let_def next_rowid_def initial_fields
      create_tables_def)

section \<open>Answering the check-in\<close>

text \<open>
  C7. \<open>handle_yes\<close> appends one row with score 1 and \<open>handle_no\<close> one with score 0; the
  activity is the text of the answer, followed by the separator and the note when the
  note field is not empty. Both empty the note field, and from the state that awaits an
  answer both lead to the working state.
\<close>

theorem answers_are_logged:
  "hourly_logs (conn (handle_yes now s)) = hourly_logs (conn s) @
     [\<lparr>log_id = next_rowid (conn s), timestamp = now,
       activity = yes_text @ (if note_input s = [] then [] else note_prefix @ note_input s),
       productivity_score = 1\<rparr>] \<and>
   hourly_logs (conn (handle_no now s)) = hourly_logs (conn s) @
     [\<lparr>log_id = next_rowid (conn s), timestamp = now,
       activity = no_text @ (if note_input s = [] then [] else note_prefix @ note_input s),
       productivity_score = 0\<rparr>] \<and>
   note_input (handle_yes now s) = [] \<and> note_input (handle_no now s) = [] \<and>
   (protocol s = AWAITING_CHECKIN \<longrightarrow>
      protocol (handle_yes now s) = WORKING \<and> protocol (handle_no now s) = WORKING)"
  by (simp add: handle_yes_def handle_no_def Let_def log_activity_def insert_log_def
      close_dialog_def protocol_def)

theorem answers_are_logged_witness:
  "protocol ((initial [] None 0)\<lparr>is_working := True, page_dialog := True,
      log_dialog_open := True, note_input := ''ok''\<rparr>) = AWAITING_CHECKIN \<and>
   hourly_logs (conn (handle_yes 42 ((initial [] None 0)\<lparr>is_working := True, page_dialog := True,
      log_dialog_open := True, note_input := ''ok''\<rparr>))) =
     [\<lparr>log_id = 1, timestamp = 42, activity = yes_text @ note_prefix @ ''ok'',
       productivity_score = 1\<rparr>] \<and>
   hourly_logs (conn (handle_no 42 ((initial [] None 0)\<lparr>is_working := True, page_dialog := True,
      log_dialog_open := True, note_input := ''ok''\<rparr>))) =
     [\<lparr>log_id = 1, timestamp = 42, activity = no_text @ note_prefix @ ''ok'',
       productivity_score = 0\<rparr>] \<and>
   note_input (handle_yes 42 ((initial [] None 0)\<lparr>is_working := True, page_dialog := True,
      log_dialog_open := True, note_input := ''ok''\<rparr>)) = [] \<and>
   protocol (handle_yes 42 ((initial [] None 0)\<lparr>is_working := True, page_dialog := True,
      log_dialog_open := True, note_input := ''ok''\<rparr>)) = WORKING \<and>
   protocol (handle_no 42 ((initial [] None 0)\<lparr>is_working := True, page_dialog := True,
      log_dialog_open := True, note_input := ''ok''\<rparr>)) = WORKING"
proof -
  let ?s = "(initial [] None 0)\<lparr>is_working := True, page_dialog := True,
      log_dialog_open := True, note_input := ''ok''\<rparr>"
  have p: "protocol ?s = AWAITING_CHECKIN" by (simp add: protocol_def)
  have n: "note_input ?s = ''ok''" by simp
  have c: "hourly_logs (conn ?s) = []" "next_rowid (conn ?s) = 1"
    by (simp_all add: initial_def update_quote_def create_tables_def next_rowid_def)
  show ?thesis using answers_are_logged [of 42 ?s] p n c by simp
qed

section \<open>One turn of the timer\<close>

lemma decimal_digit: "n < 10 \<Longrightarrow> decimal n = [digit_char n]"
  by (simp add: decimal.simps)

lemma decimal_two:
  "10 \<le> n \<Longrightarrow> n < 100 \<Longrightarrow> decimal n = [digit_char (n div 10), digit_char (n mod 10)]"
  by (subst decimal.simps) (simp add: decimal_digit)

lemma length_decimal: "1 \<le> length (decimal n)"
  by (subst decimal.simps) simp

lemma length_decimal_ge2: "10 \<le> n \<Longrightarrow> 2 \<le> length (decimal n)"
  using length_decimal [of "n div 10"] by (subst decimal.simps) simp

lemma format_02d_two_digits:
  assumes "0 \<le> n" "n < 100"
  shows "format_02d n = [digit_char (nat n div 10), digit_char (nat n mod 10)]"
proof (cases "n < 10")
  case True
  with assms have "decimal (nat n) = [digit_char (nat n)]" by (simp add: decimal_digit)
  moreover have "digit_char 0 = CHR ''0''" by (simp add: digit_char_def)
  ultimately show ?thesis using True assms by (simp add: format_02d_def)
next
  case False
  with assms have "decimal (nat n) = [digit_char (nat n div 10), digit_char (nat n mod 10)]"
    by (intro decimal_two) simp_all
  then show ?thesis using assms by (simp add: format_02d_def)
qed

lemma format_02d_hours:
  assumes "0 \<le> n"
  shows "format_02d n = (if n < 10 then CHR ''0'' # decimal (nat n) else decimal (nat n))"
proof (cases "n < 10")
  case True
  with assms have "decimal (nat n) = [digit_char (nat n)]" by (simp add: decimal_digit)
  then show ?thesis using True assms by (simp add: format_02d_def)
next
  case False
  then have "2 \<le> length (decimal (nat n))" by (intro length_decimal_ge2) simp
  then show ?thesis using False assms by (simp add: format_02d_def)
qed

text \<open>
  C2. In a working state with a non-zero target, one turn of the loop returns normally
  with \<open>worked_seconds\<close> one higher; the progress bar holds the quotient of the new count
  and \<open>daily_target * 3600\<close>, capped at 1, so it never exceeds 1; and the display is
  hours, minutes and seconds of the new count (\<open>div 3600\<close>, \<open>mod 3600 div 60\<close>,
  \<open>mod 60\<close>) separated by colons. Minutes and seconds are always exactly two digits;
  hours (for a count that is not negative) get a leading zero below ten and are printed in
  full from ten on, with no wrap at 24. The instances that follow the theorem take the
  turn at 3724, 35999 and 49999 seconds, which gives 01:02:05, 10:00:00 and 13:53:20.
\<close>

theorem tick_increments_and_renders:
  assumes "is_working s" and "daily_target s \<noteq> 0"
  shows "\<exists>s' b. run_timer_iter s = Inr (s', b) \<and>
     worked_seconds s' = worked_seconds s + 1 \<and>
     progress_bar s' = min (of_int (worked_seconds s') / of_int (daily_target s * 3600)) 1 \<and>
     progress_bar s' \<le> 1 \<and>
     timer_text s' = format_02d (worked_seconds s' div 3600) @ '':'' @
        format_02d (worked_seconds s' mod 3600 div 60) @ '':'' @
        format_02d (worked_seconds s' mod 60) \<and>
     format_02d (worked_seconds s' mod 3600 div 60) =
        [digit_char (nat (worked_seconds s' mod 3600 div 60) div 10),
         digit_char (nat (worked_seconds s' mod 3600 div 60) mod 10)] \<and>
     format_02d (worked_seconds s' mod 60) =
        [digit_char (nat (worked_seconds s' mod 60) div 10),
         digit_char (nat (worked_seconds s' mod 60) mod 10)] \<and>
     (0 \<le> worked_seconds s \<longrightarrow>
        format_02d (worked_seconds s' div 3600) =
          (if worked_seconds s' div 3600 < 10
           then CHR ''0'' # decimal (nat (worked_seconds s' div 3600))
           else decimal (nat (worked_seconds s' div 3600))))"
proof -
  let ?e = "worked_seconds s + 1"
  let ?c = "?e mod CHECK_IN_INTERVAL = 0 \<and> 0 < ?e"
  let ?p = "min (of_int ?e / of_int (daily_target s * 3600)) (1::rat)"
  define s' where "s' =
    (if ?c then (ticked s)\<lparr>progress_bar := ?p, page_dialog := True, log_dialog_open := True,
                            snack_bar := Some Snack_bell\<rparr>
     else (ticked s)\<lparr>progress_bar := ?p\<rparr>)"
  have iter: "run_timer_iter s = Inr (s', ?c)"
    using assms(1) by (simp add: run_timer_iter_def run_timer_body_nonzero [OF assms(2)] s'_def)
  have ws: "worked_seconds s' = ?e" by (simp add: s'_def ticked_def)
  have pb: "progress_bar s' = ?p" by (simp add: s'_def)
  have tt: "timer_text s' = format_02d (?e div 3600) @ '':'' @
        format_02d (?e mod 3600 div 60) @ '':'' @ format_02d (?e mod 60)"
    by (simp add: s'_def ticked_def)
  have le: "?p \<le> 1" by (rule min.cobounded2)
  have m: "format_02d (?e mod 3600 div 60) =
      [digit_char (nat (?e mod 3600 div 60) div 10), digit_char (nat (?e mod 3600 div 60) mod 10)]"
    by (rule format_02d_two_digits) simp_all
  have sec: "format_02d (?e mod 60) =
      [digit_char (nat (?e mod 60) div 10), digit_char (nat (?e mod 60) mod 10)]"
    by (rule format_02d_two_digits) simp_all
  have h: "0 \<le> worked_seconds s \<longrightarrow> format_02d (?e div 3600) =
      (if ?e div 3600 < 10 then CHR ''0'' # decimal (nat (?e div 3600))
       else decimal (nat (?e div 3600)))"
  proof
    assume "0 \<le> worked_seconds s"
    then have "0 \<le> ?e div 3600" by (simp add: pos_imp_zdiv_nonneg_iff)
    then show "format_02d (?e div 3600) =
      (if ?e div 3600 < 10 then CHR ''0'' # decimal (nat (?e div 3600))
       else decimal (nat (?e div 3600)))" by (rule format_02d_hours)
  qed
  show ?thesis
    apply (rule exI [of _ s'], rule exI [of _ ?c])
    unfolding ws pb
    apply (intro conjI)
    apply (rule iter refl tt le m sec h)+
    done
qed

theorem tick_increments_and_renders_witness:
  "is_working ((initial [] None 0)\<lparr>is_working := True, worked_seconds := 3724\<rparr>) \<and>
   daily_target ((initial [] None 0)\<lparr>is_working := True, worked_seconds := 3724\<rparr>) \<noteq> 0 \<and>
   (\<exists>s' b. run_timer_iter ((initial [] None 0)\<lparr>is_working := True, worked_seconds := 3724\<rparr>)
        = Inr (s', b) \<and>
      worked_seconds s' = 3725 \<and> timer_text s' = ''01:02:05'' \<and>
      progress_bar s' = 149 / 1440 \<and> progress_bar s' \<le> 1) \<and>
   (\<exists>s' b. run_timer_iter ((initial [] None 0)\<lparr>is_working := True, worked_seconds := 35999\<rparr>)
        = Inr (s', b) \<and>
      worked_seconds s' = 36000 \<and> timer_text s' = ''10:00:00'' \<and> progress_bar s' = 1) \<and>
   (\<exists>s' b. run_timer_iter ((initial [] None 0)\<lparr>is_working := True, worked_seconds := 49999\<rparr>)
        = Inr (s', b) \<and>
      worked_seconds s' = 50000 \<and> timer_text s' = ''13:53:20'' \<and> progress_bar s' = 1)"
proof -
  let ?i = "initial [] None 0"
  have d: "daily_target ?i = 10"
    by (simp add: initial_def update_quote_def DEFAULT_TARGET_HOURS_def)
  have f: "format_02d 1 = ''01''" "format_02d 2 = ''02''" "format_02d 5 = ''05''"
    "format_02d 10 = ''10''" "format_02d 0 = ''00''" "format_02d 13 = ''13''"
    "format_02d 53 = ''53''" "format_02d 20 = ''20''"
    by (simp_all add: format_02d_def decimal.simps digit_char_def)
  let ?a = "?i\<lparr>is_working := True, worked_seconds := 3724\<rparr>"
  have a: "is_working ?a" "daily_target ?a \<noteq> 0" "daily_target ?a = 10" "worked_seconds ?a = 3724"
    by (simp_all add: d)
  from tick_increments_and_renders [OF a(1) a(2)] obtain s1 b1 where
    r1: "run_timer_iter ?a = Inr (s1, b1)"
    and w1: "worked_seconds s1 = worked_seconds ?a + 1"
    and p1: "progress_bar s1 = min (of_int (worked_seconds s1) / of_int (daily_target ?a * 3600)) 1"
    and t1: "timer_text s1 = format_02d (worked_seconds s1 div 3600) @ '':'' @
        format_02d (worked_seconds s1 mod 3600 div 60) @ '':'' @
        format_02d (worked_seconds s1 mod 60)"
    by blast
  have w1': "worked_seconds s1 = 3725" using w1 by simp
  have A: "\<exists>s' b. run_timer_iter ?a = Inr (s', b) \<and>
      worked_seconds s' = 3725 \<and> timer_text s' = ''01:02:05'' \<and>
      progress_bar s' = 149 / 1440 \<and> progress_bar s' \<le> 1"
    apply (rule exI [of _ s1], rule exI [of _ b1])
    using r1 w1' p1 t1 by (simp add: a(3) f)
  let ?b = "?i\<lparr>is_working := True, worked_seconds := 35999\<rparr>"
  have b: "is_working ?b" "daily_target ?b \<noteq> 0" "daily_target ?b = 10" "worked_seconds ?b = 35999"
    by (simp_all add: d)
  from tick_increments_and_renders [OF b(1) b(2)] obtain s2 b2 where
    r2: "run_timer_iter ?b = Inr (s2, b2)"
    and w2: "worked_seconds s2 = worked_seconds ?b + 1"
    and p2: "progress_bar s2 = min (of_int (worked_seconds s2) / of_int (daily_target ?b * 3600)) 1"
    and t2: "timer_text s2 = format_02d (worked_seconds s2 div 3600) @ '':'' @
        format_02d (worked_seconds s2 mod 3600 div 60) @ '':'' @
        format_02d (worked_seconds s2 mod 60)"
    by blast
  have w2': "worked_seconds s2 = 36000" using w2 by simp
  have B: "\<exists>s' b. run_timer_iter ?b = Inr (s', b) \<and>
      worked_seconds s' = 36000 \<and> timer_text s' = ''10:00:00'' \<and> progress_bar s' = 1"
    apply (rule exI [of _ s2], rule exI [of _ b2])
    using r2 w2' p2 t2 by (simp add: b(3) f)
  let ?c = "?i\<lparr>is_working := True, worked_seconds := 49999\<rparr>"
  have c: "is_working ?c" "daily_target ?c \<noteq> 0" "daily_target ?c = 10" "worked_seconds ?c = 49999"
    by (simp_all add: d)
  from tick_increments_and_renders [OF c(1) c(2)] obtain s3 b3 where
    r3: "run_timer_iter ?c = Inr (s3, b3)"
    and w3: "worked_seconds s3 = worked_seconds ?c + 1"
    and p3: "progress_bar s3 = min (of_int (worked_seconds s3) / of_int (daily_target ?c * 3600)) 1"
    and t3: "timer_text s3 = format_02d (worked_seconds s3 div 3600) @ '':'' @
        format_02d (worked_seconds s3 mod 3600 div 60) @ '':'' @
        format_02d (worked_seconds s3 mod 60)"
    by blast
  have w3': "worked_seconds s3 = 50000" using w3 by simp
  have C: "\<exists>s' b. run_timer_iter ?c = Inr (s', b) \<and>
      worked_seconds s' = 50000 \<and> timer_text s' = ''13:53:20'' \<and> progress_bar s' = 1"
    apply (rule exI [of _ s3], rule exI [of _ b3])
    using r3 w3' p3 t3 by (simp add: c(3) f)
  show ?thesis using a(1) a(2) A B C by blast
qed

section \<open>The daily target\<close>






section \<open>The check-in\<close>

lemma step_daily_target_nonzero:
  assumes "daily_target s \<noteq> 0" "offered e"
  shows "daily_target (step e s) \<noteq> 0"
proof (cases e)
  case (Start_click now r)
  then show ?thesis using assms(1)
    by (simp add: step_Start_click after_body_frame started_frame)
next
  case Timer_turn
  then show ?thesis using assms(1) by (simp add: step_Timer_turn after_body_frame)
next
  case (Target_change v)
  with assms(2) have "v \<in> set target_options" by simp
  then obtain h where "h \<in> {3, 5, 8, 10, 12}" "py_int v = Some h"
    using py_int_options by blast
  then show ?thesis unfolding Target_change by (auto simp: step_Target_change)
next
  case (Delete_click row c)
  then show ?thesis using assms(1)
    by (simp add: step_other delete_task_def final_def split: option.splits)
next
  case Add_click
  then show ?thesis using assms(1) by (simp add: step_other add_task_def Let_def)
next
  case (Yes_click now)
  then show ?thesis using assms(1)
    by (simp add: step_other handle_yes_def Let_def log_activity_def close_dialog_def)
next
  case (No_click now)
  then show ?thesis using assms(1)
    by (simp add: step_other handle_no_def Let_def log_activity_def close_dialog_def)
qed (use assms(1) in \<open>simp_all add: step_other set_focus_task_def\<close>)

lemma step_opened:
  assumes "opens_dialog e s"
  shows "page_dialog (step e s) \<and> log_dialog_open (step e s) \<and>
         snack_bar (step e s) = Some Snack_bell"
proof (cases e)
  case (Start_click now r)
  with assms have "\<not> is_working s" "body_opens (started now r s)"
    by (simp_all add: opens_dialog_Start_click)
  then show ?thesis
    unfolding Start_click using after_body_opened [of "started now r s"]
    by (simp add: step_Start_click)
next
  case Timer_turn
  with assms have "is_working s" "body_opens s" by (simp_all add: opens_dialog_Timer_turn)
  then show ?thesis
    unfolding Timer_turn using after_body_opened [of s] by (simp add: step_Timer_turn)
qed (use assms in \<open>simp_all add: opens_dialog.simps\<close>)

lemma step_not_opened:
  assumes "\<not> opens_dialog e s"
  shows "page_dialog (step e s) = page_dialog s \<and>
         (log_dialog_open (step e s) \<longrightarrow> log_dialog_open s) \<and>
         (snack_bar (step e s) = Some Snack_bell \<longrightarrow> snack_bar s = Some Snack_bell)"
proof (cases e)
  case (Start_click now r)
  show ?thesis
  proof (cases "is_working s")
    case True
    then show ?thesis unfolding Start_click by (simp add: step_Start_click)
  next
    case False
    with assms have "\<not> body_opens (started now r s)"
      unfolding Start_click by (simp add: opens_dialog_Start_click)
    from after_body_not_opened [OF this] False show ?thesis
      unfolding Start_click by (simp add: step_Start_click started_frame)
  qed
next
  case Timer_turn
  show ?thesis
  proof (cases "is_working s")
    case True
    with assms have "\<not> body_opens s"
      unfolding Timer_turn by (simp add: opens_dialog_Timer_turn)
    from after_body_not_opened [OF this] True show ?thesis
      unfolding Timer_turn by (simp add: step_Timer_turn)
  next
    case False
    then show ?thesis unfolding Timer_turn by (simp add: step_Timer_turn)
  qed
next
  case (Target_change v)
  then show ?thesis by (simp add: step_Target_change split: option.splits)
next
  case (Delete_click row c)
  then show ?thesis by (simp add: step_other delete_task_def final_def split: option.splits)
next
  case Add_click
  then show ?thesis by (simp add: step_other add_task_def Let_def)
next
  case (Yes_click now)
  then show ?thesis
    by (simp add: step_other handle_yes_def Let_def log_activity_def close_dialog_def)
next
  case (No_click now)
  then show ?thesis
    by (simp add: step_other handle_no_def Let_def log_activity_def close_dialog_def)
qed (simp_all add: step_other set_focus_task_def)

lemma check_ins_set:
  assumes "daily_target s \<noteq> 0" "\<forall>e \<in> set es. offered e"
  shows "set (check_ins es s) =
     {v. worked_seconds s < v \<and> v \<le> worked_seconds (run es s) \<and>
         0 < v \<and> v mod CHECK_IN_INTERVAL = 0}"
  using assms
proof (induction es arbitrary: s)
  case Nil
  then show ?case by auto
next
  case (Cons e es)
  define P where "P v \<longleftrightarrow> 0 < v \<and> v mod CHECK_IN_INTERVAL = 0" for v :: int
  let ?t = "step e s"
  let ?a = "worked_seconds s"
  let ?f = "worked_seconds (run es ?t)"
  from Cons.prems(2) have oe: "offered e" and os: "\<forall>e \<in> set es. offered e" by simp_all
  have nz: "daily_target ?t \<noteq> 0" using Cons.prems(1) oe by (rule step_daily_target_nonzero)
  have IH: "set (check_ins es ?t) = {v. worked_seconds ?t < v \<and> v \<le> ?f \<and> P v}"
    using Cons.IH [OF nz os] by (simp add: P_def)
  have mono: "worked_seconds ?t \<le> ?f" by (rule run_worked_seconds_mono)
  have o: "opens_dialog e s \<longleftrightarrow> runs_body e s \<and> P (?a + 1)"
    using Cons.prems(1) by (auto simp: opens_dialog_iff P_def)
  have w: "worked_seconds ?t = (if runs_body e s then ?a + 1 else ?a)"
    by (rule step_worked_seconds)
  have "set (check_ins (e # es) s) = {v. ?a < v \<and> v \<le> ?f \<and> P v}"
  proof (cases "runs_body e s")
    case True
    then have w': "worked_seconds ?t = ?a + 1" using w by simp
    show ?thesis
    proof (cases "P (?a + 1)")
      case True
      with \<open>runs_body e s\<close> o have od: "opens_dialog e s" by blast
      have "set (check_ins (e # es) s) = insert (?a + 1) {v. ?a + 1 < v \<and> v \<le> ?f \<and> P v}"
        using od IH w' by simp
      also have "\<dots> = {v. ?a < v \<and> v \<le> ?f \<and> P v}"
        using True mono w' by auto
      finally show ?thesis .
    next
      case False
      with o have od: "\<not> opens_dialog e s" by blast
      have "set (check_ins (e # es) s) = {v. ?a + 1 < v \<and> v \<le> ?f \<and> P v}"
        using od IH w' by simp
      also have "\<dots> = {v. ?a < v \<and> v \<le> ?f \<and> P v}"
      proof (rule Collect_cong)
        fix v
        show "(?a + 1 < v \<and> v \<le> ?f \<and> P v) = (?a < v \<and> v \<le> ?f \<and> P v)"
        proof (cases "v = ?a + 1")
          case True
          with False show ?thesis by simp
        next
          case False
          then show ?thesis by auto
        qed
      qed
      finally show ?thesis .
    qed
  next
    case False
    then have w': "worked_seconds ?t = ?a" using w by simp
    from False o have od: "\<not> opens_dialog e s" by blast
    show ?thesis using od IH w' by simp
  qed
  then show ?case by (simp add: P_def)
qed

lemma check_ins_above: "v \<in> set (check_ins es s) \<Longrightarrow> worked_seconds s < v"
proof (induction es arbitrary: s)
  case Nil
  then show ?case by simp
next
  case (Cons e es)
  let ?t = "step e s"
  have w: "worked_seconds s \<le> worked_seconds ?t" by (simp add: step_worked_seconds)
  show ?case
  proof (cases "v \<in> set (check_ins es ?t)")
    case True
    then have "worked_seconds ?t < v" by (rule Cons.IH)
    with w show ?thesis by simp
  next
    case False
    with Cons.prems have od: "opens_dialog e s" and v: "v = worked_seconds ?t"
      by (auto split: if_splits)
    from od have "runs_body e s" by (simp add: opens_dialog_iff)
    then have "worked_seconds ?t = worked_seconds s + 1" by (simp add: step_worked_seconds)
    with v show ?thesis by simp
  qed
qed

lemma check_ins_sorted: "sorted_wrt (<) (check_ins es s)"
proof (induction es arbitrary: s)
  case Nil
  then show ?case by simp
next
  case (Cons e es)
  have "\<forall>v \<in> set (check_ins es (step e s)). worked_seconds (step e s) < v"
    using check_ins_above by blast
  with Cons.IH [of "step e s"] show ?case by simp
qed

lemma step_daily_target_kept:
  "daily_target (step Timer_turn s) = daily_target s"
  "daily_target (step (Start_click now r) s) = daily_target s"
  by (simp_all add: step_Timer_turn step_Start_click after_body_frame started_frame)

text \<open>
  C1. With a non-zero target, an event opens the check-in dialog exactly when it has just
  raised \<open>worked_seconds\<close> by one (a turn of the timer loop, the first of which runs with
  the start click) and the new count is a positive multiple of 900. Opening means that
  after the event the page's dialog is the check-in dialog, marked open, and the bell
  notice is shown; an event that does not open it leaves the page's dialog as it was and
  neither marks it open nor shows the bell. Over any execution whose dropdown choices are
  among the options, the counts at which the dialog was opened are exactly the positive
  multiples of 900 that the counter passed, each of them once and in increasing order: no
  opening at any other count, none repeated while the timer is paused or the loop is
  entered again at the same count.
\<close>

theorem check_in_exactly_at_multiples:
  assumes "daily_target s \<noteq> 0" and "\<forall>e \<in> set es. offered e"
  shows "(opens_dialog e s \<longleftrightarrow>
            worked_seconds (step e s) = worked_seconds s + 1 \<and>
            0 < worked_seconds (step e s) \<and> worked_seconds (step e s) mod 900 = 0) \<and>
         (opens_dialog e s \<longrightarrow>
            page_dialog (step e s) \<and> log_dialog_open (step e s) \<and>
            snack_bar (step e s) = Some Snack_bell) \<and>
         (\<not> opens_dialog e s \<longrightarrow>
            page_dialog (step e s) = page_dialog s \<and>
            (log_dialog_open (step e s) \<longrightarrow> log_dialog_open s) \<and>
            (snack_bar (step e s) = Some Snack_bell \<longrightarrow> snack_bar s = Some Snack_bell)) \<and>
         set (check_ins es s) =
           {v. worked_seconds s < v \<and> v \<le> worked_seconds (run es s) \<and>
               0 < v \<and> v mod 900 = 0} \<and>
         sorted_wrt (<) (check_ins es s) \<and> distinct (check_ins es s)"
proof -
  have a: "opens_dialog e s \<longleftrightarrow>
            worked_seconds (step e s) = worked_seconds s + 1 \<and>
            0 < worked_seconds (step e s) \<and> worked_seconds (step e s) mod 900 = 0"
    using assms(1) by (auto simp: opens_dialog_iff step_worked_seconds CHECK_IN_INTERVAL_def)
  have b: "opens_dialog e s \<longrightarrow>
            page_dialog (step e s) \<and> log_dialog_open (step e s) \<and>
            snack_bar (step e s) = Some Snack_bell"
    using step_opened by blast
  have c: "\<not> opens_dialog e s \<longrightarrow>
            page_dialog (step e s) = page_dialog s \<and>
            (log_dialog_open (step e s) \<longrightarrow> log_dialog_open s) \<and>
            (snack_bar (step e s) = Some Snack_bell \<longrightarrow> snack_bar s = Some Snack_bell)"
    using step_not_opened by blast
  have d: "set (check_ins es s) =
           {v. worked_seconds s < v \<and> v \<le> worked_seconds (run es s) \<and>
               0 < v \<and> v mod 900 = 0}"
    using check_ins_set [OF assms] by (simp add: CHECK_IN_INTERVAL_def)
  have f: "sorted_wrt (<) (check_ins es s)" by (rule check_ins_sorted)
  then have g: "distinct (check_ins es s)" by (simp add: strict_sorted_iff)
  from a b c d f g show ?thesis by (intro conjI)
qed

theorem check_in_exactly_at_multiples_witness:
  "daily_target ((initial [] None 0)\<lparr>worked_seconds := 898\<rparr>) \<noteq> 0 \<and>
   offered (Target_change ''8'') \<and>
   check_ins [Start_click 5 0, Timer_turn, Start_click 6 0, Timer_turn, Start_click 7 0,
       Target_change ''8''] ((initial [] None 0)\<lparr>worked_seconds := 898\<rparr>) = [900] \<and>
   set (check_ins [Start_click 5 0, Timer_turn, Start_click 6 0, Timer_turn, Start_click 7 0,
       Target_change ''8''] ((initial [] None 0)\<lparr>worked_seconds := 898\<rparr>)) =
     {v. 898 < v \<and> v \<le> 901 \<and> 0 < v \<and> v mod 900 = 0} \<and>
   distinct (check_ins [Start_click 5 0, Timer_turn, Start_click 6 0, Timer_turn,
       Start_click 7 0, Target_change ''8''] ((initial [] None 0)\<lparr>worked_seconds := 898\<rparr>)) \<and>
   \<not> opens_dialog (Start_click 5 0) ((initial [] None 0)\<lparr>worked_seconds := 898\<rparr>) \<and>
   \<not> page_dialog (step (Start_click 5 0) ((initial [] None 0)\<lparr>worked_seconds := 898\<rparr>)) \<and>
   opens_dialog (Start_click 5 0) ((initial [] None 0)\<lparr>worked_seconds := 899\<rparr>) \<and>
   page_dialog (step (Start_click 5 0) ((initial [] None 0)\<lparr>worked_seconds := 899\<rparr>)) \<and>
   log_dialog_open (step (Start_click 5 0) ((initial [] None 0)\<lparr>worked_seconds := 899\<rparr>)) \<and>
   snack_bar (step (Start_click 5 0) ((initial [] None 0)\<lparr>worked_seconds := 899\<rparr>)) =
     Some Snack_bell"
proof -
  let ?es = "[Start_click 5 0, Timer_turn, Start_click 6 0, Timer_turn, Start_click 7 0,
       Target_change ''8'']"
  let ?a = "(initial [] None 0)\<lparr>worked_seconds := 898\<rparr>"
  let ?b = "(initial [] None 0)\<lparr>worked_seconds := 899\<rparr>"
  have a: "daily_target ?a \<noteq> 0" "\<not> is_working ?a" "worked_seconds ?a = 898"
    "daily_target ?a = 10" "\<not> page_dialog ?a"
    and b: "daily_target ?b \<noteq> 0" "\<not> is_working ?b" "worked_seconds ?b = 899"
    by (simp_all add: initial_fields)
  have o: "\<forall>e \<in> set ?es. offered e" and o': "offered (Target_change ''8'')"
    and n: "\<forall>e \<in> set []. offered e"
    by (simp_all add: target_options_def)
  have w1: "worked_seconds (step (Start_click 5 0) ?a) = 899"
    and w2: "worked_seconds (step (Start_click 5 0) ?b) = 900"
    using a(2) b(2) by (simp_all add: step_worked_seconds)
  have ev: "check_ins ?es ?a = [900]"
    using a(2)
    by (simp add: opens_dialog_iff step_worked_seconds step_is_working step_daily_target_kept
        a(4) CHECK_IN_INTERVAL_def)
  have r: "worked_seconds (run ?es ?a) = 901"
    using a(2) by (simp add: step_worked_seconds step_is_working)
  note T = check_in_exactly_at_multiples [OF a(1) o, of "Start_click 5 0"]
  note U = check_in_exactly_at_multiples [OF b(1) n, of "Start_click 5 0"]
  have A: "opens_dialog (Start_click 5 0) ?a \<longleftrightarrow>
      worked_seconds (step (Start_click 5 0) ?a) = worked_seconds ?a + 1 \<and>
      0 < worked_seconds (step (Start_click 5 0) ?a) \<and>
      worked_seconds (step (Start_click 5 0) ?a) mod 900 = 0"
    by (rule T [THEN conjunct1])
  have B: "opens_dialog (Start_click 5 0) ?b \<longleftrightarrow>
      worked_seconds (step (Start_click 5 0) ?b) = worked_seconds ?b + 1 \<and>
      0 < worked_seconds (step (Start_click 5 0) ?b) \<and>
      worked_seconds (step (Start_click 5 0) ?b) mod 900 = 0"
    by (rule U [THEN conjunct1])
  have A': "\<not> opens_dialog (Start_click 5 0) ?a" unfolding A w1 by simp
  have B': "opens_dialog (Start_click 5 0) ?b" unfolding B w2 b(3) by simp
  from T [THEN conjunct2, THEN conjunct2, THEN conjunct1] A' a(5)
  have A'': "\<not> page_dialog (step (Start_click 5 0) ?a)" by simp
  from U [THEN conjunct2, THEN conjunct1] B'
  have B'': "page_dialog (step (Start_click 5 0) ?b) \<and>
      log_dialog_open (step (Start_click 5 0) ?b) \<and>
      snack_bar (step (Start_click 5 0) ?b) = Some Snack_bell"
    by simp
  have S: "set (check_ins ?es ?a) =
      {v. worked_seconds ?a < v \<and> v \<le> worked_seconds (run ?es ?a) \<and> 0 < v \<and> v mod 900 = 0}"
    by (rule T [THEN conjunct2, THEN conjunct2, THEN conjunct2, THEN conjunct1])
  have D: "distinct (check_ins ?es ?a)"
    by (rule T [THEN conjunct2, THEN conjunct2, THEN conjunct2, THEN conjunct2, THEN conjunct2])
  have S': "set (check_ins ?es ?a) = {v. 898 < v \<and> v \<le> 901 \<and> 0 < v \<and> v mod 900 = 0}"
    using S unfolding r a(3) .
  from a(1) o' ev S' D A' A'' B' B'' show ?thesis by (intro conjI) simp_all
qed

end
